theory Spec2Isabelle
  imports Complex_Main "HOL-Library.Word"
begin

section \<open>Vectors, quaternions and matrices of the GLM library\<close>

text \<open>
  \<^verbatim>\<open>l_system.hpp\<close> computes with \<^verbatim>\<open>glm::vec3\<close>, \<^verbatim>\<open>glm::vec2\<close>, \<^verbatim>\<open>glm::mat3\<close> and
  quaternions over \<^verbatim>\<open>float\<close>. The scalars are modelled as \<^typ>\<open>real\<close>: every operation is
  the exact one, without rounding, infinities or NaN. The GLM functions the turtle calls
  are written out with the formulas of the GLM headers (\<^verbatim>\<open>geometric.inl\<close>,
  \<^verbatim>\<open>quaternion.inl\<close>, \<^verbatim>\<open>type_mat3x3.inl\<close>), in the same order of operations.
\<close>

datatype vec2 = Vec2 real real

datatype vec3 = Vec3 (vx: real) (vy: real) (vz: real)

text \<open>A quaternion \<^verbatim>\<open>glm::quat(w, x, y, z)\<close>.\<close>

datatype quat = Quat (qw: real) (qx: real) (qy: real) (qz: real)

text \<open>A \<^verbatim>\<open>glm::mat3\<close> is column-major: \<open>Mat3 c0 c1 c2\<close> holds the three columns.\<close>

datatype mat3 = Mat3 vec3 vec3 vec3

text \<open>\<^verbatim>\<open>a + b\<close> on \<^verbatim>\<open>vec3\<close>.\<close>

fun vadd :: "vec3 \<Rightarrow> vec3 \<Rightarrow> vec3" where
  "vadd (Vec3 a1 a2 a3) (Vec3 b1 b2 b3) = Vec3 (a1 + b1) (a2 + b2) (a3 + b3)"

text \<open>\<^verbatim>\<open>s * v\<close> and \<^verbatim>\<open>v * s\<close>: a scalar times a \<^verbatim>\<open>vec3\<close>, componentwise.\<close>

fun smul :: "real \<Rightarrow> vec3 \<Rightarrow> vec3" where
  "smul s (Vec3 a1 a2 a3) = Vec3 (s * a1) (s * a2) (s * a3)"

fun vmul :: "vec3 \<Rightarrow> real \<Rightarrow> vec3" where
  "vmul (Vec3 a1 a2 a3) s = Vec3 (a1 * s) (a2 * s) (a3 * s)"

text \<open>\<^verbatim>\<open>glm::dot\<close>.\<close>

fun dot :: "vec3 \<Rightarrow> vec3 \<Rightarrow> real" where
  "dot (Vec3 a1 a2 a3) (Vec3 b1 b2 b3) = a1 * b1 + a2 * b2 + a3 * b3"

text \<open>\<^verbatim>\<open>glm::cross(x, y)\<close>.\<close>

fun cross :: "vec3 \<Rightarrow> vec3 \<Rightarrow> vec3" where
  "cross (Vec3 a1 a2 a3) (Vec3 b1 b2 b3) =
     Vec3 (a2 * b3 - b2 * a3) (a3 * b1 - b3 * a1) (a1 * b2 - b1 * a2)"

text \<open>
  \<^verbatim>\<open>glm::inversesqrt(x)\<close> is \<^verbatim>\<open>1 / sqrt(x)\<close>. At \<open>x = 0\<close> the C++ yields an infinity and
  \<^verbatim>\<open>normalize\<close> of the zero vector yields NaN components; in HOL \<open>1 / 0 = 0\<close>. No
  statement below normalises a zero vector.
\<close>

definition inversesqrt :: "real \<Rightarrow> real" where
  "inversesqrt a = 1 / sqrt a"

text \<open>
  \<^verbatim>\<open>glm::normalize(v)\<close> is \<^verbatim>\<open>v * inversesqrt(dot(v, v))\<close>. Over the reals the result has
  length exactly 1 and normalising it again changes nothing. In \<^verbatim>\<open>float\<close> the result has
  length 1 only up to rounding, so a vector that was normalised once can still be changed by
  a second \<^verbatim>\<open>normalize\<close>. Where a statement depends on this, it is made about a state whose
  forward vector is given with its length, not about the states the model reaches.
\<close>

definition normalize :: "vec3 \<Rightarrow> vec3" where
  "normalize v = vmul v (inversesqrt (dot v v))"

text \<open>\<^verbatim>\<open>glm::length(v)\<close> is \<^verbatim>\<open>sqrt(dot(v, v))\<close>.\<close>

definition vlength :: "vec3 \<Rightarrow> real" where
  "vlength v = sqrt (dot v v)"

text \<open>
  \<^verbatim>\<open>glm::angleAxis(angle, v)\<close> is
  \<^verbatim>\<open>quat(cos(angle * 0.5), v * sin(angle * 0.5))\<close>.
\<close>

definition angleAxis :: "real \<Rightarrow> vec3 \<Rightarrow> quat" where
  "angleAxis angle v =
     (let s = sin (angle * 0.5);
          u = vmul v s
      in Quat (cos (angle * 0.5)) (vx u) (vy u) (vz u))"

text \<open>\<^verbatim>\<open>glm::toMat3(q)\<close>, that is \<^verbatim>\<open>glm::mat3_cast(q)\<close>.\<close>

definition toMat3 :: "quat \<Rightarrow> mat3" where
  "toMat3 q =
     (let qxx = qx q * qx q; qyy = qy q * qy q; qzz = qz q * qz q;
          qxz = qx q * qz q; qxy = qx q * qy q; qyz = qy q * qz q;
          qwx = qw q * qx q; qwy = qw q * qy q; qwz = qw q * qz q
      in Mat3
        (Vec3 (1 - 2 * (qyy + qzz)) (2 * (qxy + qwz)) (2 * (qxz - qwy)))
        (Vec3 (2 * (qxy - qwz)) (1 - 2 * (qxx + qzz)) (2 * (qyz + qwx)))
        (Vec3 (2 * (qxz + qwy)) (2 * (qyz - qwx)) (1 - 2 * (qxx + qyy))))"

text \<open>\<^verbatim>\<open>m * v\<close>: a \<^verbatim>\<open>mat3\<close> times a column vector.\<close>

fun mat_vec :: "mat3 \<Rightarrow> vec3 \<Rightarrow> vec3" where
  "mat_vec (Mat3 (Vec3 m00 m01 m02) (Vec3 m10 m11 m12) (Vec3 m20 m21 m22)) (Vec3 v1 v2 v3) =
     Vec3 (m00 * v1 + m10 * v2 + m20 * v3)
          (m01 * v1 + m11 * v2 + m21 * v3)
          (m02 * v1 + m12 * v2 + m22 * v3)"

section \<open>The output primitives\<close>

text \<open>
  Modelled from the spec: \<^verbatim>\<open>draw_primitives.hpp\<close>, which declares \<^verbatim>\<open>Branch\<close> and
  \<^verbatim>\<open>Leaf\<close>, is not among the sources. A Branch is a start point, a start radius, an end
  point and an end radius; a Leaf is an anchor point, the two orientation vectors forward
  and left, and a 2D size. The fields are in the order of the constructor calls in
  \<^verbatim>\<open>LTurtle::process\<close>.
\<close>

datatype Branch = Branch (branch_start: vec3) (start_radius: real)
                         (branch_end: vec3) (end_radius: real)

datatype Leaf = Leaf (leaf_position: vec3) (leaf_forward: vec3) (leaf_left: vec3)
                     (leaf_extent: vec2)

section \<open>\<^verbatim>\<open>TurtleBase\<close>\<close>

text \<open>
  \<^verbatim>\<open>struct TurtleState\<close> with its member initialisers, and \<^verbatim>\<open>struct TurtleBase\<close>: the
  current state and the \<^verbatim>\<open>std::stack\<close> of saved states, a list whose head is the top.
\<close>

record TurtleState =
  position :: vec3
  forward :: vec3
  left :: vec3
  up :: vec3
  brushWidth :: real

definition initialState :: TurtleState where
  "initialState =
     \<lparr> position = Vec3 0 0 0, forward = Vec3 0 1 0, left = Vec3 0 0 1, up = Vec3 1 0 0,
       brushWidth = 1 \<rparr>"

text \<open>
  The frame of a state is orthonormal: forward, left and up have length 1, are mutually
  orthogonal, and up is the cross product of forward and left.
\<close>

definition orthonormal_frame :: "TurtleState \<Rightarrow> bool" where
  "orthonormal_frame s =
     (vlength (forward s) = 1 \<and> vlength (left s) = 1 \<and> vlength (up s) = 1 \<and>
      dot (forward s) (left s) = 0 \<and> dot (forward s) (up s) = 0 \<and> dot (left s) (up s) = 0 \<and>
      up s = cross (forward s) (left s))"

record TurtleBase =
  currentState :: TurtleState
  turtleStack :: "TurtleState list"

text \<open>
  The operations are defined on every extension of the record, as the methods of the
  base class are inherited by \<^verbatim>\<open>LTurtle\<close>.
\<close>

definition move :: "real \<Rightarrow> 'a TurtleBase_scheme \<Rightarrow> 'a TurtleBase_scheme" where
  "move d t =
     t\<lparr>currentState := (currentState t)
         \<lparr>position := vadd (position (currentState t))
                           (smul d (normalize (forward (currentState t))))\<rparr>\<rparr>"

definition rotate :: "vec3 \<Rightarrow> real \<Rightarrow> 'a TurtleBase_scheme \<Rightarrow> 'a TurtleBase_scheme" where
  "rotate unit_axis angle_radians t =
     (let rotationMatrix = toMat3 (angleAxis angle_radians unit_axis);
          newForward = mat_vec rotationMatrix (forward (currentState t));
          newLeft0 = mat_vec rotationMatrix (left (currentState t));
          newUp = cross newForward newLeft0;
          newLeft = cross newUp newForward
      in t\<lparr>currentState := (currentState t)
             \<lparr>forward := normalize newForward,
              left := normalize newLeft,
              up := normalize newUp\<rparr>\<rparr>)"

definition set_brush_width :: "real \<Rightarrow> 'a TurtleBase_scheme \<Rightarrow> 'a TurtleBase_scheme" where
  "set_brush_width width t =
     (if width > 0 then t\<lparr>currentState := (currentState t)\<lparr>brushWidth := width\<rparr>\<rparr> else t)"

definition push :: "'a TurtleBase_scheme \<Rightarrow> 'a TurtleBase_scheme" where
  "push t = t\<lparr>turtleStack := currentState t # turtleStack t\<rparr>"

definition pop :: "'a TurtleBase_scheme \<Rightarrow> 'a TurtleBase_scheme" where
  "pop t =
     (case turtleStack t of
        [] \<Rightarrow> t
      | lastState # rest \<Rightarrow>
          t\<lparr>turtleStack := rest,
            currentState := (currentState t)
              \<lparr>position := position lastState,
               forward := forward lastState,
               left := left lastState,
               up := up lastState,
               brushWidth := brushWidth lastState\<rparr>\<rparr>)"

section \<open>\<^verbatim>\<open>LTurtle\<close>\<close>

record Config =
  radius :: real
  distance :: real
  leaf_size :: real
  angle_world_y :: real
  angle_turtle_left :: real
  brush_decay_coef :: real
  max_depth :: "32 word"

type_synonym Rules = "char \<rightharpoonup> string"

text \<open>
  An \<^verbatim>\<open>LTurtle\<close> is a \<^verbatim>\<open>TurtleBase\<close> with the two output vectors it holds by reference.
  Its members \<^verbatim>\<open>cfg\<close> and \<^verbatim>\<open>rules\<close> are set by the constructor and never assigned
  again, so they are parameters of \<open>process\<close> and \<open>run\<close>.
\<close>

record LTurtle = TurtleBase +
  branches :: "Branch list"
  leaves :: "Leaf list"

text \<open>The turtle as the constructor leaves it, over the caller's two vectors.\<close>

definition newLTurtle :: "Branch list \<Rightarrow> Leaf list \<Rightarrow> LTurtle" where
  "newLTurtle bs ls =
     \<lparr> currentState = initialState, turtleStack = [], branches = bs, leaves = ls \<rparr>"

definition process :: "Config \<Rightarrow> char \<Rightarrow> LTurtle \<Rightarrow> LTurtle" where
  "process cfg symbol t =
     (let st = currentState t in
      if symbol = CHR ''L'' then
        move (distance cfg * brushWidth st)
          (t\<lparr>leaves := leaves t @
               [Leaf (position st) (forward st) (left st)
                  (Vec2 (leaf_size cfg * brushWidth st)
                        (leaf_size cfg * brushWidth st * 2))]\<rparr>)
      else if symbol = CHR ''l'' then
        move (distance cfg * brushWidth st)
          (t\<lparr>leaves := leaves t @
               [Leaf (position st) (forward st) (left st)
                  (Vec2 (leaf_size cfg * brushWidth st)
                        (leaf_size cfg * brushWidth st * 2))]\<rparr>)
      else if symbol = CHR ''B'' then
        move (distance cfg * brushWidth st)
          (t\<lparr>branches := branches t @
               [Branch (position st) (radius cfg * brushWidth st)
                  (vadd (position st) (smul (distance cfg * brushWidth st) (forward st)))
                  (brush_decay_coef cfg * radius cfg * brushWidth st)]\<rparr>)
      else if symbol = CHR ''M'' then move (distance cfg * brushWidth st) t
      else if symbol = CHR ''+'' then rotate (Vec3 0 1 0) (angle_world_y cfg) t
      else if symbol = CHR ''-'' then rotate (Vec3 0 1 0) (- angle_world_y cfg) t
      else if symbol = CHR ''&'' then rotate (normalize (left st)) (angle_turtle_left cfg) t
      else if symbol = CHR ''^'' then rotate (normalize (left st)) (- angle_turtle_left cfg) t
      else if symbol = CHR ''*'' then set_brush_width (brush_decay_coef cfg * brushWidth st) t
      else if symbol = CHR ''['' then push t
      else if symbol = CHR '']'' then pop t
      else t)"

text \<open>
  \<^verbatim>\<open>run\<close>: the depth test, then one of the two loops over the sentence. The depth is an
  \<^verbatim>\<open>unsigned int\<close>; \<open>depth + 1\<close> is only computed below \<open>max_depth\<close>, where it cannot
  wrap.
\<close>

function run :: "Config \<Rightarrow> Rules \<Rightarrow> string \<Rightarrow> 32 word \<Rightarrow> LTurtle \<Rightarrow> LTurtle" where
  "run cfg rules sentence depth t =
     (if depth < max_depth cfg then
        fold (\<lambda>c t'. case rules c of
                        None \<Rightarrow> process cfg c t'
                      | Some replacement \<Rightarrow> run cfg rules replacement (depth + 1) t')
             sentence t
      else fold (process cfg) sentence t)"
  by pat_completeness auto
termination
proof (relation "measure (\<lambda>(cfg, rules, sentence, depth, t). unat (max_depth cfg) - unat depth)")
  show "wf (measure (\<lambda>(cfg, rules, sentence, depth, t). unat (max_depth cfg) - unat depth))"
    by simp
next
  fix cfg :: Config and rules :: Rules and sentence :: string and depth :: "32 word"
    and t t' :: LTurtle and c :: char and replacement :: string
  assume "depth < max_depth cfg"
  then have "unat (depth + 1) = Suc (unat depth)" and "unat depth < unat (max_depth cfg)"
    by unat_arith+
  then show "((cfg, rules, replacement, depth + 1, t'), (cfg, rules, sentence, depth, t))
      \<in> measure (\<lambda>(cfg, rules, sentence, depth, t). unat (max_depth cfg) - unat depth)"
    by simp
qed

text \<open>
  The same function with a budget of call-stack frames: every call of \<open>run\<close> takes one
  frame, a recursive call gets what is left, and a call with no frame left gives \<open>None\<close>,
  as do the loops around it.
\<close>

fun run_bounded :: "nat \<Rightarrow> Config \<Rightarrow> Rules \<Rightarrow> string \<Rightarrow> 32 word \<Rightarrow> LTurtle \<Rightarrow> LTurtle option"
  where
  "run_bounded 0 cfg rules sentence depth t = None"
| "run_bounded (Suc frames) cfg rules sentence depth t =
     (if depth < max_depth cfg then
        fold (\<lambda>c r. case r of
                       None \<Rightarrow> None
                     | Some t' \<Rightarrow>
                         (case rules c of
                            None \<Rightarrow> Some (process cfg c t')
                          | Some replacement \<Rightarrow>
                              run_bounded frames cfg rules replacement (depth + 1) t'))
             sentence (Some t)
      else Some (fold (process cfg) sentence t))"

section \<open>The rewriting tree of the specification\<close>

text \<open>
  The specification describes what \<open>run\<close> interprets as the left-to-right, depth-first
  terminal yield of the rewriting tree, truncated at the depth ceiling. These definitions
  follow those words, not the code: a symbol with \<open>n\<close> levels left below the ceiling is a
  leaf of the tree when \<open>n = 0\<close> or when it has no rule, and otherwise a node whose children
  are the trees of its replacement's symbols with \<open>n - 1\<close> levels left.
\<close>

datatype rtree = Terminal char | Rewrite char "rtree list"

fun rewriting_tree :: "Rules \<Rightarrow> nat \<Rightarrow> char \<Rightarrow> rtree" where
  "rewriting_tree rules 0 c = Terminal c"
| "rewriting_tree rules (Suc n) c =
     (case rules c of
        None \<Rightarrow> Terminal c
      | Some replacement \<Rightarrow> Rewrite c (map (rewriting_tree rules n) replacement))"

fun terminal_yield :: "rtree \<Rightarrow> string" where
  "terminal_yield (Terminal c) = [c]"
| "terminal_yield (Rewrite c ts) = concat (map terminal_yield ts)"

text \<open>The yield of a sentence met at \<open>depth\<close> under the ceiling \<open>maxDepth\<close>.\<close>

definition sentence_yield :: "Rules \<Rightarrow> 32 word \<Rightarrow> 32 word \<Rightarrow> string \<Rightarrow> string" where
  "sentence_yield rules maxDepth depth sentence =
     concat (map (\<lambda>c. terminal_yield
                          (rewriting_tree rules (unat maxDepth - unat depth) c)) sentence)"

section \<open>Sequences of calls and of commands\<close>

text \<open>A call of one of the state-changing methods of \<^verbatim>\<open>TurtleBase\<close>, and its effect.\<close>

datatype turtle_call =
  Move real | Rotate vec3 real | Set_brush_width real | Push | Pop

fun call :: "turtle_call \<Rightarrow> 'a TurtleBase_scheme \<Rightarrow> 'a TurtleBase_scheme" where
  "call (Move d) t = move d t"
| "call (Rotate unit_axis angle_radians) t = rotate unit_axis angle_radians t"
| "call (Set_brush_width width) t = set_brush_width width t"
| "call Push t = push t"
| "call Pop t = pop t"

text \<open>A call of \<open>rotate\<close> whose axis argument has length 1.\<close>

fun unit_rotation :: "turtle_call \<Rightarrow> bool" where
  "unit_rotation (Rotate unit_axis angle_radians) = (vlength unit_axis = 1)"
| "unit_rotation c = False"

text \<open>
  \<open>balanced_calls cs n\<close>: read after \<open>n\<close> unmatched pushes, every pop of \<open>cs\<close> matches an
  earlier push and no push is left unmatched at the end. With \<open>n = 0\<close>, \<open>cs\<close> is made of
  moves, rotations, brush-width settings and balanced push/pop pairs.
\<close>

fun balanced_calls :: "turtle_call list \<Rightarrow> nat \<Rightarrow> bool" where
  "balanced_calls [] n = (n = 0)"
| "balanced_calls (Push # cs) n = balanced_calls cs (Suc n)"
| "balanced_calls (Pop # cs) n = (case n of 0 \<Rightarrow> False | Suc m \<Rightarrow> balanced_calls cs m)"
| "balanced_calls (c # cs) n = balanced_calls cs n"

text \<open>The same for a sentence of commands, where \<open>[\<close> pushes and \<open>]\<close> pops.\<close>

fun balanced :: "string \<Rightarrow> nat \<Rightarrow> bool" where
  "balanced [] n = (n = 0)"
| "balanced (c # cs) n =
     (if c = CHR ''['' then balanced cs (Suc n)
      else if c = CHR '']'' then (case n of 0 \<Rightarrow> False | Suc m \<Rightarrow> balanced cs m)
      else balanced cs n)"

text \<open>
  \<open>skip_group cs n\<close> reads \<open>cs\<close> after an opening bracket, with \<open>n\<close> further brackets
  open, up to the closing bracket that matches the first one, and returns what follows it;
  \<open>None\<close> when that bracket is never closed.
\<close>

fun skip_group :: "string \<Rightarrow> nat \<Rightarrow> string option" where
  "skip_group [] n = None"
| "skip_group (c # cs) n =
     (if c = CHR ''['' then skip_group cs (Suc n)
      else if c = CHR '']'' then (case n of 0 \<Rightarrow> Some cs | Suc m \<Rightarrow> skip_group cs m)
      else skip_group cs n)"

text \<open>
  \<open>strip_brackets cs\<close> is \<open>cs\<close> with every bracketed subsequence, from an opening bracket
  to the closing bracket that matches it, replaced by nothing. A bracket without a partner
  stays.
\<close>

function strip_brackets :: "string \<Rightarrow> string" where
  "strip_brackets [] = []"
| "strip_brackets (c # cs) =
     (if c = CHR ''['' then
        (case skip_group cs 0 of
           Some rest \<Rightarrow> strip_brackets rest
         | None \<Rightarrow> c # strip_brackets cs)
      else c # strip_brackets cs)"
  by pat_completeness auto
termination
proof (relation "measure length")
  show "wf (measure length)"
    by simp
next
  fix c :: char and cs rest :: string
  assume "skip_group cs 0 = Some rest"
  moreover have "skip_group cs n = Some rest \<Longrightarrow> length rest < length cs" for n
    by (induction cs arbitrary: n) (auto split: if_splits nat.splits intro: less_SucI)
  ultimately show "(rest, c # cs) \<in> measure length"
    by (simp add: less_SucI)
qed simp_all

text \<open>The agent: the state of the \<^verbatim>\<open>TurtleBase\<close> part of a turtle, without the outputs.\<close>

definition agent :: "'a TurtleBase_scheme \<Rightarrow> TurtleState \<times> TurtleState list" where
  "agent t = (currentState t, turtleStack t)"

text \<open>The brush width of the current state and of every saved state is positive.\<close>

definition brush_positive :: "'a TurtleBase_scheme \<Rightarrow> bool" where
  "brush_positive t =
     (0 < brushWidth (currentState t) \<and> list_all (\<lambda>s. 0 < brushWidth s) (turtleStack t))"

section \<open>The configurations of the scenarios\<close>

text \<open>
  The configuration of the two-branch scenario: distance 1, radius 0.5, decay coefficient
  0.9, a world-up angle of 90 degrees (in radians, as \<^verbatim>\<open>glm::angleAxis\<close> takes it), leaf
  size 1 and \<open>max_depth = 0\<close>. The scenario leaves the angle about the left axis open.
\<close>

definition branch_scenario_config :: "real \<Rightarrow> Config" where
  "branch_scenario_config a =
     \<lparr> radius = 0.5, distance = 1, leaf_size = 1, angle_world_y = pi / 2,
       angle_turtle_left = a, brush_decay_coef = 0.9, max_depth = 0 \<rparr>"

text \<open>A configuration with the decay coefficient 0.5 and the leaf size 2.\<close>

definition leaf_scenario_config :: Config where
  "leaf_scenario_config =
     \<lparr> radius = 1, distance = 1, leaf_size = 2, angle_world_y = 0,
       angle_turtle_left = 0, brush_decay_coef = 0.5, max_depth = 0 \<rparr>"


section \<open>The loops of \<open>run\<close>\<close>

text \<open>The equation of \<open>run\<close> is unfolded by hand, one call at a time.\<close>

declare run.simps [simp del]

lemma levels_below:
  fixes depth m :: "32 word"
  assumes "depth < m"
  shows "unat m - unat depth = Suc (unat m - unat (depth + 1))"
  using assms by unat_arith

lemma levels_ceiling:
  fixes depth m :: "32 word"
  assumes "\<not> depth < m"
  shows "unat m - unat depth = 0"
  using assms by unat_arith

lemma fold_rule_loop:
  assumes "\<And>c replacement t'. c \<in> set sentence \<Longrightarrow> rules c = Some replacement \<Longrightarrow>
     step replacement t' =
       fold p (concat (map (\<lambda>c. terminal_yield (rewriting_tree rules n c)) replacement)) t'"
  shows "fold (\<lambda>c t'. case rules c of
                         None \<Rightarrow> p c t'
                       | Some replacement \<Rightarrow> step replacement t') sentence t =
     fold p (concat (map (\<lambda>c. terminal_yield (rewriting_tree rules (Suc n) c)) sentence)) t"
  using assms
proof (induction sentence arbitrary: t)
  case Nil
  show ?case by simp
next
  case (Cons c cs)
  have tl: "fold (\<lambda>c t'. case rules c of
                           None \<Rightarrow> p c t'
                         | Some replacement \<Rightarrow> step replacement t') cs u =
      fold p (concat (map (\<lambda>c. terminal_yield (rewriting_tree rules (Suc n) c)) cs)) u" for u
    by (rule Cons.IH) (rule Cons.prems, simp_all)
  show ?case
  proof (cases "rules c")
    case None
    then show ?thesis by (simp add: tl)
  next
    case (Some replacement)
    then have "step replacement t =
        fold p (concat (map (\<lambda>c. terminal_yield (rewriting_tree rules n c)) replacement)) t"
      by (intro Cons.prems [of c]) simp_all
    with Some show ?thesis by (simp add: tl comp_def)
  qed
qed

lemma fold_ceiling:
  "fold p (concat (map (\<lambda>c. terminal_yield (rewriting_tree rules 0 c)) sentence)) t =
     fold p sentence t"
  by (induction sentence arbitrary: t) simp_all

lemma run_yield:
  "run cfg rules sentence depth t =
     fold (process cfg) (sentence_yield rules (max_depth cfg) depth sentence) t"
proof (induction cfg rules sentence depth t rule: run.induct)
  case (1 cfg rules sentence depth t)
  show ?case
  proof (cases "depth < max_depth cfg")
    case True
    have "fold (\<lambda>c t'. case rules c of None \<Rightarrow> process cfg c t'
                        | Some replacement \<Rightarrow> run cfg rules replacement (depth + 1) t') sentence t
        = fold (process cfg) (concat (map (\<lambda>c. terminal_yield
             (rewriting_tree rules (Suc (unat (max_depth cfg) - unat (depth + 1))) c)) sentence)) t"
      by (rule fold_rule_loop) (simp add: "1.IH" [OF True] sentence_yield_def)
    with True show ?thesis
      by (simp add: run.simps [of cfg rules sentence depth t] sentence_yield_def levels_below)
  next
    case False
    then show ?thesis
      by (simp add: run.simps [of cfg rules sentence depth t] sentence_yield_def
          levels_ceiling fold_ceiling)
  qed
qed

lemma run_bounded_run:
  "unat (max_depth cfg) - unat depth < frames \<Longrightarrow>
     run_bounded frames cfg rules sentence depth t = Some (run cfg rules sentence depth t)"
proof (induction cfg rules sentence depth t arbitrary: frames rule: run.induct)
  case (1 cfg rules sentence depth t)
  from "1.prems" obtain k where frames: "frames = Suc k"
    by (cases frames) simp_all
  show ?case
  proof (cases "depth < max_depth cfg")
    case True
    with "1.prems" frames have k: "unat (max_depth cfg) - unat (depth + 1) < k"
      by (simp add: levels_below)
    have inner: "run_bounded k cfg rules replacement (depth + 1) t'
        = Some (run cfg rules replacement (depth + 1) t')"
      if "c \<in> set sentence" "rules c = Some replacement" for c replacement t'
      using "1.IH" [OF True that k] .
    have "fold (\<lambda>c r. case r of None \<Rightarrow> None
             | Some t' \<Rightarrow> (case rules c of None \<Rightarrow> Some (process cfg c t')
                 | Some replacement \<Rightarrow> run_bounded k cfg rules replacement (depth + 1) t'))
            cs (Some u)
        = Some (fold (\<lambda>c t'. case rules c of None \<Rightarrow> process cfg c t'
                 | Some replacement \<Rightarrow> run cfg rules replacement (depth + 1) t') cs u)"
      if "set cs \<subseteq> set sentence" for cs u
      using that
    proof (induction cs arbitrary: u)
      case Nil
      show ?case by simp
    next
      case (Cons c cs)
      then show ?case
        by (cases "rules c") (simp_all add: inner [of c])
    qed
    from this [of sentence t] True frames show ?thesis
      by (simp add: run.simps [of cfg rules sentence depth t])
  next
    case False
    with frames show ?thesis
      by (simp add: run.simps [of cfg rules sentence depth t])
  qed
qed

lemma yield_no_rule: "rules c = None \<Longrightarrow> terminal_yield (rewriting_tree rules n c) = [c]"
  by (cases n) simp_all

lemma yield_empty_rules: "sentence_yield Map.empty m depth sentence = sentence"
  by (induction sentence) (simp_all add: sentence_yield_def yield_no_rule)

section \<open>What single commands do\<close>

lemma process_L:
  "process cfg (CHR ''L'') t =
     move (distance cfg * brushWidth (currentState t))
       (t\<lparr>leaves := leaves t @
            [Leaf (position (currentState t)) (forward (currentState t)) (left (currentState t))
               (Vec2 (leaf_size cfg * brushWidth (currentState t))
                     (leaf_size cfg * brushWidth (currentState t) * 2))]\<rparr>)"
  by (simp add: process_def Let_def)

lemma process_l: "process cfg (CHR ''l'') t = process cfg (CHR ''L'') t"
  by (simp add: process_def Let_def)

lemma process_L_leaves:
  "leaves (process cfg (CHR ''L'') t) =
     leaves t @ [Leaf (position (currentState t)) (forward (currentState t)) (left (currentState t))
       (Vec2 (leaf_size cfg * brushWidth (currentState t))
             (leaf_size cfg * brushWidth (currentState t) * 2))]"
  by (simp add: process_L move_def)

lemma process_L_branches: "branches (process cfg (CHR ''L'') t) = branches t"
  by (simp add: process_L move_def)

lemma process_B:
  "process cfg (CHR ''B'') t =
     move (distance cfg * brushWidth (currentState t))
       (t\<lparr>branches := branches t @
            [Branch (position (currentState t)) (radius cfg * brushWidth (currentState t))
               (vadd (position (currentState t))
                  (smul (distance cfg * brushWidth (currentState t)) (forward (currentState t))))
               (brush_decay_coef cfg * radius cfg * brushWidth (currentState t))]\<rparr>)"
  by (simp add: process_def Let_def)

lemma process_plus: "process cfg (CHR ''+'') t = rotate (Vec3 0 1 0) (angle_world_y cfg) t"
  by (simp add: process_def Let_def)

lemma process_star:
  "process cfg (CHR ''*'') t =
     set_brush_width (brush_decay_coef cfg * brushWidth (currentState t)) t"
  by (simp add: process_def Let_def)

lemma process_open: "process cfg (CHR ''['') t = push t"
  by (simp add: process_def Let_def)

lemma process_close: "process cfg (CHR '']'') t = pop t"
  by (simp add: process_def Let_def)

lemma process_unknown: "c \<notin> set ''LlBM+-&^*[]'' \<Longrightarrow> process cfg c t = t"
  by (simp add: process_def Let_def)


lemma sin_cos_quarter:
  "sin (pi / 4) * sin (pi / 4) = 1 / 2" "cos (pi / 4) * sin (pi / 4) = 1 / 2"
  by (simp_all add: sin_45 cos_45)

section \<open>Depth-first interpretation and the depth ceiling\<close>

lemma levels_three: "unat (3::32 word) - unat (0::32 word) = Suc (Suc (Suc 0))"
  by simp

lemma A_yield: "sentence_yield [CHR ''A'' \<mapsto> ''AA''] 3 0 ''A'' = ''AAAAAAAA''"
  unfolding sentence_yield_def levels_three by simp

lemma L_yield: "sentence_yield [CHR ''L'' \<mapsto> ''LL''] 3 0 ''L'' = ''LLLLLLLL''"
  unfolding sentence_yield_def levels_three by simp

text \<open>
  Claim C1. For every configuration, rule table, sentence and state, \<open>run\<close> from depth 0
  (and from any other depth) has the effect of processing, from left to right, the
  terminal yield of the rewriting tree truncated at \<open>max_depth\<close>. For the rule
  \<open>A \<rightarrow> AA\<close> and \<open>max_depth = 3\<close> the yield of the axiom \<open>A\<close> is eight symbols \<open>A\<close>,
  and they are what \<open>run\<close> processes; with \<open>L\<close> in the place of \<open>A\<close>, whose command
  emits one Leaf, the run appends eight Leaves and no Branch.
\<close>

theorem run_interprets_terminal_yield:
  "run cfg rules sentence 0 t =
     fold (process cfg) (sentence_yield rules (max_depth cfg) 0 sentence) t
   \<and> run cfg rules sentence depth t =
     fold (process cfg) (sentence_yield rules (max_depth cfg) depth sentence) t
   \<and> sentence_yield [CHR ''A'' \<mapsto> ''AA''] 3 0 ''A'' = ''AAAAAAAA''
   \<and> run (cfg\<lparr>max_depth := 3\<rparr>) [CHR ''A'' \<mapsto> ''AA''] ''A'' 0 t =
     fold (process (cfg\<lparr>max_depth := 3\<rparr>)) ''AAAAAAAA'' t
   \<and> length (leaves (run (cfg\<lparr>max_depth := 3\<rparr>) [CHR ''L'' \<mapsto> ''LL''] ''L'' 0 t)) =
     length (leaves t) + 8
   \<and> branches (run (cfg\<lparr>max_depth := 3\<rparr>) [CHR ''L'' \<mapsto> ''LL''] ''L'' 0 t) = branches t"
  by (simp add: run_yield A_yield L_yield process_L_leaves process_L_branches)

text \<open>
  Claim C5. \<open>run\<close> returns on every sentence, rule table, configuration and starting
  depth, and its nested calls need at most \<open>max_depth - depth + 1\<close> call-stack frames:
  with that budget, or a larger one, the bounded function returns the result of \<open>run\<close>.
  In particular \<open>max_depth + 1\<close> frames are enough from every starting depth. Nothing is
  assumed of the rule table, which may be cyclic: with the rule \<open>A \<rightarrow> AA\<close> and
  \<open>max_depth = 3\<close>, four frames are enough and three are not.
\<close>

theorem run_terminates_within_max_depth:
  "run_bounded (Suc (unat (max_depth cfg) - unat depth) + k) cfg rules sentence depth t =
     Some (run cfg rules sentence depth t)
   \<and> run_bounded (Suc (unat (max_depth cfg))) cfg rules sentence depth t =
     Some (run cfg rules sentence depth t)
   \<and> run_bounded 4 (cfg\<lparr>max_depth := 3\<rparr>) [CHR ''A'' \<mapsto> ''AA''] ''A'' 0 t = Some t
   \<and> run_bounded 3 (cfg\<lparr>max_depth := 3\<rparr>) [CHR ''A'' \<mapsto> ''AA''] ''A'' 0 t = None"
proof (intro conjI)
  show "run_bounded (Suc (unat (max_depth cfg) - unat depth) + k) cfg rules sentence depth t =
     Some (run cfg rules sentence depth t)"
    by (rule run_bounded_run) simp
  show "run_bounded (Suc (unat (max_depth cfg))) cfg rules sentence depth t =
     Some (run cfg rules sentence depth t)"
    by (rule run_bounded_run) simp
  have "run_bounded 4 (cfg\<lparr>max_depth := 3\<rparr>) [CHR ''A'' \<mapsto> ''AA''] ''A'' 0 t =
      Some (run (cfg\<lparr>max_depth := 3\<rparr>) [CHR ''A'' \<mapsto> ''AA''] ''A'' 0 t)"
    by (rule run_bounded_run) simp
  then show "run_bounded 4 (cfg\<lparr>max_depth := 3\<rparr>) [CHR ''A'' \<mapsto> ''AA''] ''A'' 0 t = Some t"
    by (simp add: run_yield A_yield process_def)
  show "run_bounded 3 (cfg\<lparr>max_depth := 3\<rparr>) [CHR ''A'' \<mapsto> ''AA''] ''A'' 0 t = None"
    by (simp add: numeral_3_eq_3)
qed

section \<open>The two-branch scenario\<close>

lemma two_branch_initial:
  "currentState (process (branch_scenario_config a) (CHR ''B'') (newLTurtle bs ls)) =
     initialState\<lparr>position := Vec3 0 1 0\<rparr>"
  by (simp add: process_B move_def newLTurtle_def initialState_def normalize_def
      inversesqrt_def) (simp add: branch_scenario_config_def)

lemma process_B_branches:
  "branches (process cfg (CHR ''B'') t) =
     branches t @
       [Branch (position (currentState t)) (radius cfg * brushWidth (currentState t))
          (vadd (position (currentState t))
             (smul (distance cfg * brushWidth (currentState t)) (forward (currentState t))))
          (brush_decay_coef cfg * radius cfg * brushWidth (currentState t))]"
  by (simp add: process_B move_def)

lemma process_B_leaves: "leaves (process cfg (CHR ''B'') t) = leaves t"
  by (simp add: process_B move_def)

lemma rotate_quarter_turn:
  assumes "forward (currentState t) = Vec3 0 1 0" and "left (currentState t) = Vec3 0 0 1"
  shows "currentState (rotate (Vec3 0 1 0) (pi / 2) t) =
    (currentState t)\<lparr>forward := Vec3 0 1 0, left := Vec3 1 0 0, up := Vec3 0 0 (- 1)\<rparr>"
  using assms
  by (simp add: rotate_def Let_def angleAxis_def toMat3_def normalize_def inversesqrt_def
      sin_cos_quarter)

text \<open>
  Claim C2. With the scenario's configuration, an empty rule table and the turtle as
  constructed, \<open>run\<close> on \<open>B+B\<close> appends exactly two Branches and no Leaf. The first goes
  from (0,0,0) to (0,1,0) with radii 0.5 and 0.45. Then \<open>+\<close> rotates by 90 degrees about
  world-up: after \<open>B+\<close> the turtle stands at (0,1,0) with forward still (0,1,0), left
  (1,0,0) and up (0,0,-1). The second Branch starts there and ends at (0,1,0) plus 1.0
  times the forward vector after the rotation, which is (0,2,0), with the radii
  \<open>radius * brushWidth = 0.5\<close> and \<open>decayCoef * radius * brushWidth = 0.45\<close>.
\<close>

theorem scenario_two_branches:
  "branches (run (branch_scenario_config a) Map.empty ''B+B'' 0 (newLTurtle bs ls)) =
     bs @ [Branch (Vec3 0 0 0) 0.5 (Vec3 0 1 0) 0.45, Branch (Vec3 0 1 0) 0.5 (Vec3 0 2 0) 0.45]
   \<and> leaves (run (branch_scenario_config a) Map.empty ''B+B'' 0 (newLTurtle bs ls)) = ls
   \<and> run (branch_scenario_config a) Map.empty ''B+'' 0 (newLTurtle bs ls) =
       rotate (Vec3 0 1 0) (pi / 2)
         (run (branch_scenario_config a) Map.empty ''B'' 0 (newLTurtle bs ls))
   \<and> currentState (run (branch_scenario_config a) Map.empty ''B+'' 0 (newLTurtle bs ls)) =
       \<lparr> position = Vec3 0 1 0, forward = Vec3 0 1 0, left = Vec3 1 0 0, up = Vec3 0 0 (- 1),
         brushWidth = 1 \<rparr>
   \<and> (let st = currentState
                (run (branch_scenario_config a) Map.empty ''B+'' 0 (newLTurtle bs ls))
      in Branch (Vec3 0 1 0) 0.5 (Vec3 0 2 0) 0.45 =
         Branch (position st) (radius (branch_scenario_config a) * brushWidth st)
           (vadd (Vec3 0 1 0) (smul 1.0 (forward st)))
           (brush_decay_coef (branch_scenario_config a) * radius (branch_scenario_config a) *
              brushWidth st))"
proof -
  let ?cfg = "branch_scenario_config a"
  let ?t1 = "process ?cfg (CHR ''B'') (newLTurtle bs ls)"
  let ?t2 = "process ?cfg (CHR ''+'') ?t1"
  have cfg: "radius ?cfg = 0.5" "distance ?cfg = 1" "brush_decay_coef ?cfg = 0.9"
    "angle_world_y ?cfg = pi / 2"
    by (simp_all add: branch_scenario_config_def)
  have t1: "currentState ?t1 = initialState\<lparr>position := Vec3 0 1 0\<rparr>"
    by (rule two_branch_initial)
  have b1: "branches ?t1 = bs @ [Branch (Vec3 0 0 0) 0.5 (Vec3 0 1 0) 0.45]"
    by (subst process_B_branches) (simp add: cfg newLTurtle_def initialState_def)
  have l1: "leaves ?t1 = ls"
    by (subst process_B_leaves) (simp add: newLTurtle_def)
  have plus: "?t2 = rotate (Vec3 0 1 0) (pi / 2) ?t1"
    by (simp add: process_plus cfg)
  have t2: "currentState ?t2 =
      \<lparr> position = Vec3 0 1 0, forward = Vec3 0 1 0, left = Vec3 1 0 0, up = Vec3 0 0 (- 1),
        brushWidth = 1 \<rparr>"
    unfolding plus by (subst rotate_quarter_turn) (simp_all add: t1 initialState_def)
  have out2: "branches ?t2 = branches ?t1" "leaves ?t2 = leaves ?t1"
    unfolding plus by (simp_all add: rotate_def Let_def)
  have b3: "branches (process ?cfg (CHR ''B'') ?t2) =
      bs @ [Branch (Vec3 0 0 0) 0.5 (Vec3 0 1 0) 0.45, Branch (Vec3 0 1 0) 0.5 (Vec3 0 2 0) 0.45]"
    by (subst process_B_branches) (simp add: t2 out2 b1 cfg)
  have l3: "leaves (process ?cfg (CHR ''B'') ?t2) = ls"
    by (subst process_B_leaves) (simp add: out2 l1)
  show ?thesis
    by (simp add: run_yield yield_empty_rules b3 l3 t2 plus [symmetric] cfg Let_def)
qed

section \<open>Popping an empty stack\<close>

lemma pop_empty: "turtleStack t = [] \<Longrightarrow> pop t = t"
  by (simp add: pop_def)

text \<open>
  Claim C7. When the stack of saved states is empty, \<open>pop\<close> returns the turtle as it
  was: the current state, the stack and the rest of the object are unchanged, and no
  branch of the function fails. The same holds for the command \<open>]\<close>.
\<close>

theorem pop_on_empty_stack:
  "(turtleStack t = [] \<longrightarrow> pop t = t)
   \<and> (turtleStack u = [] \<longrightarrow> process cfg (CHR '']'') u = u)"
  by (simp add: pop_empty process_close)

theorem pop_on_empty_stack_witness:
  "turtleStack (newLTurtle [] []) = []
   \<and> pop (newLTurtle [] []) = newLTurtle [] []
   \<and> process leaf_scenario_config (CHR '']'') (newLTurtle [] []) = newLTurtle [] []"
  using pop_on_empty_stack [of "newLTurtle [] []" "newLTurtle [] []" leaf_scenario_config]
  by (simp add: newLTurtle_def)

section \<open>The brush width\<close>

lemma brush_positive_move: "brush_positive t \<Longrightarrow> brush_positive (move d t)"
  by (simp add: brush_positive_def move_def)

lemma brush_positive_rotate:
  "brush_positive t \<Longrightarrow> brush_positive (rotate unit_axis angle_radians t)"
  by (simp add: brush_positive_def rotate_def Let_def)

lemma brush_positive_set: "brush_positive t \<Longrightarrow> brush_positive (set_brush_width width t)"
  by (simp add: brush_positive_def set_brush_width_def)

lemma brush_positive_push: "brush_positive t \<Longrightarrow> brush_positive (push t)"
  by (simp add: brush_positive_def push_def)

lemma brush_positive_pop: "brush_positive t \<Longrightarrow> brush_positive (pop t)"
  by (cases "turtleStack t") (simp_all add: brush_positive_def pop_def)

lemma brush_positive_outputs:
  "brush_positive (t\<lparr>leaves := xs\<rparr>) = brush_positive t"
  "brush_positive (t\<lparr>branches := ys\<rparr>) = brush_positive t"
  by (simp_all add: brush_positive_def)

lemma brush_positive_process: "brush_positive t \<Longrightarrow> brush_positive (process cfg c t)"
  unfolding process_def Let_def
  by (simp add: brush_positive_move brush_positive_rotate brush_positive_set
      brush_positive_push brush_positive_pop brush_positive_outputs)

lemma brush_positive_fold:
  "brush_positive t \<Longrightarrow> brush_positive (fold (process cfg) cs t)"
  by (induction cs arbitrary: t) (simp_all add: brush_positive_process)

lemma brush_positive_run:
  "brush_positive t \<Longrightarrow> brush_positive (run cfg rules sentence depth t)"
  by (simp add: run_yield brush_positive_fold)

lemma brush_positive_new: "brush_positive (newLTurtle bs ls)"
  by (simp add: brush_positive_def newLTurtle_def initialState_def)

text \<open>
  Claim C6. \<open>set_brush_width\<close> assigns the width exactly when it is positive and
  otherwise returns the turtle unchanged. The turtle as constructed has a positive brush
  width in its current state and, trivially, in every saved state, and every operation of
  \<^verbatim>\<open>TurtleBase\<close>, every command (among them \<open>*\<close>, for any decay coefficient) and every
  \<open>run\<close> keeps it so; hence the brush width is positive after any run from the initial
  turtle.
\<close>

theorem brush_width_stays_positive:
  "brushWidth (currentState (set_brush_width width t)) =
     (if 0 < width then width else brushWidth (currentState t))
   \<and> (0 < width \<longrightarrow>
        set_brush_width width t = t\<lparr>currentState := (currentState t)\<lparr>brushWidth := width\<rparr>\<rparr>)
   \<and> (\<not> 0 < width \<longrightarrow> set_brush_width width t = t)
   \<and> brush_positive (newLTurtle bs ls)
   \<and> (brush_positive t \<longrightarrow>
        brush_positive (move d t) \<and> brush_positive (rotate unit_axis angle_radians t) \<and>
        brush_positive (set_brush_width width t) \<and> brush_positive (push t) \<and>
        brush_positive (pop t))
   \<and> (brush_positive u \<longrightarrow>
        0 < brushWidth (currentState u) \<and>
        brush_positive (process cfg c u) \<and> brush_positive (run cfg rules sentence depth u))
   \<and> 0 < brushWidth (currentState (run cfg rules sentence depth (newLTurtle bs ls)))"
proof -
  have "brush_positive (run cfg rules sentence depth (newLTurtle bs ls))"
    by (rule brush_positive_run) (rule brush_positive_new)
  then have "0 < brushWidth (currentState (run cfg rules sentence depth (newLTurtle bs ls)))"
    by (simp add: brush_positive_def)
  moreover have "brush_positive u \<longrightarrow> 0 < brushWidth (currentState u)"
    by (simp add: brush_positive_def)
  ultimately show ?thesis
    by (simp add: brush_positive_move brush_positive_rotate brush_positive_set
      brush_positive_push brush_positive_pop brush_positive_process brush_positive_run
      brush_positive_new) (simp add: set_brush_width_def)
qed

theorem brush_width_stays_positive_witness:
  "set_brush_width (- 1) (newLTurtle [] []) = newLTurtle [] []
   \<and> brushWidth (currentState (set_brush_width 2 (newLTurtle [] []))) = 2
   \<and> brush_positive (newLTurtle [] [])
   \<and> brush_positive (pop (newLTurtle [] []))
   \<and> brush_positive (process (leaf_scenario_config\<lparr>brush_decay_coef := - 3\<rparr>) (CHR ''*'')
        (newLTurtle [] []))
   \<and> 0 < brushWidth (currentState
        (run (leaf_scenario_config\<lparr>brush_decay_coef := - 3\<rparr>) Map.empty ''*[*]*'' 0
           (newLTurtle [] [])))"
  using
    brush_width_stays_positive [of "- 1" "newLTurtle [] []" "[]" "[]" 0 "Vec3 0 1 0" 0
      "newLTurtle [] []" "leaf_scenario_config\<lparr>brush_decay_coef := - 3\<rparr>" "CHR ''*''"
      Map.empty "''*[*]*''" 0]
    brush_width_stays_positive [of 2 "newLTurtle [] []" "[]" "[]" 0 "Vec3 0 1 0" 0
      "newLTurtle [] []" "leaf_scenario_config\<lparr>brush_decay_coef := - 3\<rparr>" "CHR ''*''"
      Map.empty "''*[*]*''" 0]
  by simp

section \<open>Leaves\<close>

text \<open>
  Claim C8. The commands \<open>L\<close> and \<open>l\<close> append exactly one Leaf, at the current position
  with the current forward and left vectors and the size
  \<open>(leaf_size * brushWidth, leaf_size * brushWidth * 2)\<close>, append no Branch, and then
  move the turtle by \<open>distance * brushWidth\<close> along its normalised forward vector. With
  the decay coefficient 0.5 and the leaf size 2, the axiom \<open>*L\<close> run from the initial turtle
  sets the brush width to 0.5 and appends one Leaf of size (1, 2).
\<close>

theorem leaf_sizing:
  "(c = CHR ''L'' \<or> c = CHR ''l'' \<longrightarrow>
      leaves (process cfg c t) =
        leaves t @ [Leaf (position (currentState t)) (forward (currentState t))
                      (left (currentState t))
                      (Vec2 (leaf_size cfg * brushWidth (currentState t))
                            (leaf_size cfg * brushWidth (currentState t) * 2))]
    \<and> branches (process cfg c t) = branches t
    \<and> process cfg c t =
        move (distance cfg * brushWidth (currentState t))
          (t\<lparr>leaves := leaves (process cfg c t)\<rparr>)
    \<and> position (currentState (process cfg c t)) =
        vadd (position (currentState t))
          (smul (distance cfg * brushWidth (currentState t))
             (normalize (forward (currentState t)))))
   \<and> (brush_decay_coef cfg = 0.5 \<and> leaf_size cfg = 2 \<longrightarrow>
        brushWidth (currentState (run cfg Map.empty ''*'' depth (newLTurtle bs ls))) = 0.5
      \<and> leaves (run cfg Map.empty ''*L'' depth (newLTurtle bs ls)) =
          ls @ [Leaf (Vec3 0 0 0) (Vec3 0 1 0) (Vec3 0 0 1) (Vec2 1 2)]
      \<and> position (currentState (run cfg Map.empty ''*L'' depth (newLTurtle bs ls))) =
          Vec3 0 (distance cfg * 0.5) 0)"
proof (intro conjI impI)
  assume "c = CHR ''L'' \<or> c = CHR ''l''"
  then have c: "process cfg c t = process cfg (CHR ''L'') t"
    by (auto simp: process_l)
  show "leaves (process cfg c t) =
        leaves t @ [Leaf (position (currentState t)) (forward (currentState t))
                      (left (currentState t))
                      (Vec2 (leaf_size cfg * brushWidth (currentState t))
                            (leaf_size cfg * brushWidth (currentState t) * 2))]"
    by (simp add: c process_L_leaves)
  show "branches (process cfg c t) = branches t"
    by (simp add: c process_L_branches)
  show "process cfg c t =
        move (distance cfg * brushWidth (currentState t))
          (t\<lparr>leaves := leaves (process cfg c t)\<rparr>)"
    by (simp add: c process_L_leaves) (simp add: process_L)
  show "position (currentState (process cfg c t)) =
        vadd (position (currentState t))
          (smul (distance cfg * brushWidth (currentState t))
             (normalize (forward (currentState t))))"
    by (simp add: c process_L move_def)
next
  assume a: "brush_decay_coef cfg = 0.5 \<and> leaf_size cfg = 2"
  have star: "currentState (process cfg (CHR ''*'') (newLTurtle bs ls)) =
      initialState\<lparr>brushWidth := 0.5\<rparr>"
    using a by (simp add: process_star set_brush_width_def newLTurtle_def initialState_def)
  show "brushWidth (currentState (run cfg Map.empty ''*'' depth (newLTurtle bs ls))) = 0.5"
    by (simp add: run_yield yield_empty_rules star)
  show "leaves (run cfg Map.empty ''*L'' depth (newLTurtle bs ls)) =
          ls @ [Leaf (Vec3 0 0 0) (Vec3 0 1 0) (Vec3 0 0 1) (Vec2 1 2)]"
    using a by (simp add: run_yield yield_empty_rules process_L_leaves star)
      (simp add: initialState_def process_star set_brush_width_def newLTurtle_def)
  show "position (currentState (run cfg Map.empty ''*L'' depth (newLTurtle bs ls))) =
          Vec3 0 (distance cfg * 0.5) 0"
    by (simp add: run_yield yield_empty_rules process_L move_def star)
      (simp add: initialState_def normalize_def inversesqrt_def)
qed

theorem leaf_sizing_witness:
  "leaves (process leaf_scenario_config (CHR ''l'') (newLTurtle [] [])) =
      [Leaf (Vec3 0 0 0) (Vec3 0 1 0) (Vec3 0 0 1) (Vec2 2 4)]
   \<and> brushWidth (currentState (run leaf_scenario_config Map.empty ''*'' 0 (newLTurtle [] [])))
       = 0.5
   \<and> leaves (run leaf_scenario_config Map.empty ''*L'' 0 (newLTurtle [] [])) =
      [Leaf (Vec3 0 0 0) (Vec3 0 1 0) (Vec3 0 0 1) (Vec2 1 2)]
   \<and> position (currentState (run leaf_scenario_config Map.empty ''*L'' 0 (newLTurtle [] []))) =
      Vec3 0 0.5 0"
proof -
  have cfg: "brush_decay_coef leaf_scenario_config = 0.5 \<and> leaf_size leaf_scenario_config = 2"
    "distance leaf_scenario_config = 1"
    by (simp_all add: leaf_scenario_config_def)
  have new: "leaves (newLTurtle [] []) = []"
    "currentState (newLTurtle [] []) = initialState"
    by (simp_all add: newLTurtle_def)
  note w = leaf_sizing [of "CHR ''l''" leaf_scenario_config "newLTurtle [] []" 0 "[]" "[]"]
  from w have "leaves (process leaf_scenario_config (CHR ''l'') (newLTurtle [] [])) =
      [Leaf (Vec3 0 0 0) (Vec3 0 1 0) (Vec3 0 0 1) (Vec2 2 4)]"
    by (simp add: new cfg initialState_def)
  with w cfg show ?thesis
    by simp
qed

section \<open>Unknown symbols\<close>

text \<open>
  Claim C9. A symbol that is none of the commands \<open>L l B M + - & ^ * [ ]\<close> leaves the
  whole turtle, agent and outputs, as it was. Hence, when \<open>Q\<close> has no rule, running the
  axiom \<open>QBQ\<close> gives the same turtle as running \<open>B\<close>, from any depth and state; and when
  \<open>B\<close> has no rule either, the run appends exactly one Branch, the one of \<open>B\<close>, and no
  Leaf.
\<close>

theorem unknown_symbols_discarded:
  "(c \<notin> set ''LlBM+-&^*[]'' \<longrightarrow> process cfg c t = t)
   \<and> (rules (CHR ''Q'') = None \<longrightarrow>
        run cfg rules ''QBQ'' depth t = run cfg rules ''B'' depth t)
   \<and> (rules (CHR ''Q'') = None \<and> rules (CHR ''B'') = None \<longrightarrow>
        branches (run cfg rules ''QBQ'' depth t) =
          branches t @
            [Branch (position (currentState t)) (radius cfg * brushWidth (currentState t))
               (vadd (position (currentState t))
                  (smul (distance cfg * brushWidth (currentState t)) (forward (currentState t))))
               (brush_decay_coef cfg * radius cfg * brushWidth (currentState t))]
      \<and> leaves (run cfg rules ''QBQ'' depth t) = leaves t)"
proof (intro conjI impI)
  assume "c \<notin> set ''LlBM+-&^*[]''"
  then show "process cfg c t = t" by (rule process_unknown)
next
  have Q: "process cfg (CHR ''Q'') v = v" for v
    by (rule process_unknown) simp
  {
    assume "rules (CHR ''Q'') = None"
    then show "run cfg rules ''QBQ'' depth t = run cfg rules ''B'' depth t"
      by (simp add: run_yield sentence_yield_def yield_no_rule Q)
  }
  assume "rules (CHR ''Q'') = None \<and> rules (CHR ''B'') = None"
  then have "run cfg rules ''QBQ'' depth t = process cfg (CHR ''B'') t"
    by (simp add: run_yield sentence_yield_def yield_no_rule Q)
  then show "branches (run cfg rules ''QBQ'' depth t) =
          branches t @
            [Branch (position (currentState t)) (radius cfg * brushWidth (currentState t))
               (vadd (position (currentState t))
                  (smul (distance cfg * brushWidth (currentState t)) (forward (currentState t))))
               (brush_decay_coef cfg * radius cfg * brushWidth (currentState t))]"
    and "leaves (run cfg rules ''QBQ'' depth t) = leaves t"
    by (simp_all add: process_B_branches process_B_leaves)
qed

theorem unknown_symbols_discarded_witness:
  "process (branch_scenario_config 0) (CHR ''Q'') (newLTurtle [] []) = newLTurtle [] []
   \<and> run (branch_scenario_config 0) Map.empty ''QBQ'' 0 (newLTurtle [] []) =
       run (branch_scenario_config 0) Map.empty ''B'' 0 (newLTurtle [] [])
   \<and> branches (run (branch_scenario_config 0) Map.empty ''QBQ'' 0 (newLTurtle [] [])) =
       [Branch (Vec3 0 0 0) 0.5 (Vec3 0 1 0) 0.45]
   \<and> leaves (run (branch_scenario_config 0) Map.empty ''QBQ'' 0 (newLTurtle [] [])) = []"
proof -
  have cfg: "radius (branch_scenario_config 0) = 0.5" "distance (branch_scenario_config 0) = 1"
    "brush_decay_coef (branch_scenario_config 0) = 0.9"
    by (simp_all add: branch_scenario_config_def)
  have new: "leaves (newLTurtle [] []) = []" "branches (newLTurtle [] []) = []"
    "currentState (newLTurtle [] []) = initialState"
    by (simp_all add: newLTurtle_def)
  have no_rules:
    "(Map.empty :: Rules) (CHR ''Q'') = None \<and> (Map.empty :: Rules) (CHR ''B'') = None"
    by simp
  note w = unknown_symbols_discarded [of "CHR ''Q''" "branch_scenario_config 0"
      "newLTurtle [] []" Map.empty 0]
  from w have "process (branch_scenario_config 0) (CHR ''Q'') (newLTurtle [] []) =
      newLTurtle [] []"
    by simp
  moreover from w have "run (branch_scenario_config 0) Map.empty ''QBQ'' 0 (newLTurtle [] []) =
       run (branch_scenario_config 0) Map.empty ''B'' 0 (newLTurtle [] [])"
    by simp
  moreover from w [THEN conjunct2, THEN conjunct2, THEN mp, OF no_rules] have
    "branches (run (branch_scenario_config 0) Map.empty ''QBQ'' 0 (newLTurtle [] [])) =
       [Branch (Vec3 0 0 0) 0.5 (Vec3 0 1 0) 0.45]
     \<and> leaves (run (branch_scenario_config 0) Map.empty ''QBQ'' 0 (newLTurtle [] [])) = []"
    by (simp add: cfg new initialState_def)
  ultimately show ?thesis
    by (intro conjI) (rule conjunct1, assumption | rule conjunct2, assumption | assumption)+
qed

section \<open>The stack of saved states\<close>

lemma call_stack_cases:
  "turtleStack (move d t) = turtleStack t"
  "turtleStack (rotate ax an t) = turtleStack t"
  "turtleStack (set_brush_width w t) = turtleStack t"
  "turtleStack (push t) = currentState t # turtleStack t"
  by (simp_all add: move_def rotate_def Let_def set_brush_width_def push_def)

lemma pop_Cons:
  "turtleStack t = s # ss \<Longrightarrow> pop t = t\<lparr>turtleStack := ss, currentState := s\<rparr>"
  by (simp add: pop_def)

lemma call_more: "TurtleBase.more (call c t) = TurtleBase.more t"
  by (cases c) (simp_all add: move_def rotate_def Let_def set_brush_width_def push_def pop_def
      split: list.split)

lemma calls_more: "TurtleBase.more (fold call cs t) = TurtleBase.more t"
  by (induction cs arbitrary: t) (simp_all add: call_more)

lemma balanced_calls_stack:
  "balanced_calls cs n \<Longrightarrow> length ss = n \<Longrightarrow> turtleStack t = ss @ base \<Longrightarrow>
     turtleStack (fold call cs t) = base"
proof (induction cs arbitrary: n ss t)
  case Nil
  then show ?case by simp
next
  case (Cons c cs)
  show ?case
  proof (cases c)
    case Push
    have "turtleStack (fold call cs (push t)) = base"
      by (rule Cons.IH [where ss = "currentState t # ss" and n = "Suc n"])
        (use Cons.prems Push in \<open>simp_all add: call_stack_cases\<close>)
    with Push show ?thesis by simp
  next
    case Pop
    with Cons.prems obtain m where n: "n = Suc m" and bal: "balanced_calls cs m"
      by (cases n) simp_all
    with Cons.prems obtain s ss' where ss: "ss = s # ss'" "length ss' = m"
      by (cases ss) simp_all
    have "turtleStack (fold call cs (pop t)) = base"
      by (rule Cons.IH [OF bal ss(2)]) (use Cons.prems ss in \<open>simp add: pop_Cons\<close>)
    with Pop show ?thesis by simp
  next
    case (Move d)
    have "turtleStack (fold call cs (move d t)) = base"
      by (rule Cons.IH [where ss = ss and n = n])
        (use Cons.prems Move in \<open>simp_all add: call_stack_cases\<close>)
    with Move show ?thesis by simp
  next
    case (Rotate unit_axis angle_radians)
    have "turtleStack (fold call cs (rotate unit_axis angle_radians t)) = base"
      by (rule Cons.IH [where ss = ss and n = n])
        (use Cons.prems Rotate in \<open>simp_all add: call_stack_cases\<close>)
    with Rotate show ?thesis by simp
  next
    case (Set_brush_width width)
    have "turtleStack (fold call cs (set_brush_width width t)) = base"
      by (rule Cons.IH [where ss = ss and n = n])
        (use Cons.prems Set_brush_width in \<open>simp_all add: call_stack_cases\<close>)
    with Set_brush_width show ?thesis by simp
  qed
qed

lemma push_calls_pop:
  assumes "balanced_calls cs 0"
  shows "fold call (Push # cs @ [Pop]) t = t"
proof -
  let ?u = "fold call cs (push t)"
  have "turtleStack ?u = currentState t # turtleStack t"
    by (rule balanced_calls_stack [OF assms, where ss = "[]"]) (simp_all add: call_stack_cases)
  then have "pop ?u = ?u\<lparr>turtleStack := turtleStack t, currentState := currentState t\<rparr>"
    by (rule pop_Cons)
  moreover have "TurtleBase.more ?u = TurtleBase.more t"
    by (simp add: calls_more push_def)
  ultimately show ?thesis by simp
qed

lemma process_stack:
  "turtleStack (process cfg c t) =
     (if c = CHR ''['' then currentState t # turtleStack t
      else if c = CHR '']'' then tl (turtleStack t) else turtleStack t)"
  by (simp add: process_def Let_def call_stack_cases pop_def split: list.split)

lemma balanced_stack:
  "balanced w n \<Longrightarrow> length ss = n \<Longrightarrow> turtleStack t = ss @ base \<Longrightarrow>
     turtleStack (fold (process cfg) w t) = base"
proof (induction w arbitrary: n ss t)
  case Nil
  then show ?case by simp
next
  case (Cons c w)
  show ?case
  proof (cases "c = CHR ''[''")
    case True
    have "turtleStack (fold (process cfg) w (process cfg c t)) = base"
      by (rule Cons.IH [where ss = "currentState t # ss" and n = "Suc n"])
        (use Cons.prems True in \<open>simp_all add: process_stack\<close>)
    then show ?thesis by simp
  next
    case no_push: False
    show ?thesis
    proof (cases "c = CHR '']''")
      case True
      with Cons.prems obtain m where n: "n = Suc m" and bal: "balanced w m"
        by (cases n) simp_all
      with Cons.prems obtain s ss' where ss: "ss = s # ss'" "length ss' = m"
        by (cases ss) simp_all
      have "turtleStack (fold (process cfg) w (process cfg c t)) = base"
        by (rule Cons.IH [OF bal ss(2)]) (use Cons.prems ss True in \<open>simp add: process_stack\<close>)
      then show ?thesis by simp
    next
      case False
      have "turtleStack (fold (process cfg) w (process cfg c t)) = base"
        by (rule Cons.IH [where ss = ss and n = n])
          (use Cons.prems no_push False in \<open>simp_all add: process_stack\<close>)
      then show ?thesis by simp
    qed
  qed
qed

lemma bracket_roundtrip:
  assumes "balanced w 0"
  shows "agent (fold (process cfg) (CHR ''['' # w @ [CHR '']'']) t) = agent t"
proof -
  let ?u = "fold (process cfg) w (push t)"
  have "turtleStack ?u = currentState t # turtleStack t"
    by (rule balanced_stack [OF assms, where ss = "[]"]) (simp_all add: call_stack_cases)
  then have "pop ?u = ?u\<lparr>turtleStack := turtleStack t, currentState := currentState t\<rparr>"
    by (rule pop_Cons)
  then show ?thesis
    by (simp add: process_open process_close agent_def)
qed

lemma agent_outputs:
  "agent (t\<lparr>leaves := xs\<rparr>) = agent t"
  "agent (t\<lparr>branches := ys\<rparr>) = agent t"
  by (simp_all add: agent_def)

lemma agent_calls:
  assumes "agent t = agent u"
  shows "agent (move d t) = agent (move d u)"
    and "agent (rotate ax an t) = agent (rotate ax an u)"
    and "agent (set_brush_width w t) = agent (set_brush_width w u)"
    and "agent (push t) = agent (push u)"
    and "agent (pop t) = agent (pop u)"
  using assms
  by (simp_all add: agent_def move_def rotate_def Let_def set_brush_width_def push_def pop_def
      split: list.split)

lemma process_agent:
  assumes "agent t = agent u"
  shows "agent (process cfg c t) = agent (process cfg c u)"
proof -
  from assms have st: "currentState t = currentState u"
    by (simp add: agent_def)
  from assms have out:
    "agent (t\<lparr>leaves := xs\<rparr>) = agent (u\<lparr>leaves := xs'\<rparr>)"
    "agent (t\<lparr>branches := ys\<rparr>) = agent (u\<lparr>branches := ys'\<rparr>)" for xs xs' ys ys'
    by (simp_all add: agent_outputs)
  show ?thesis
    unfolding process_def Let_def st
    by (simp add: assms agent_calls [OF assms] agent_calls(1) [OF out(1)]
        agent_calls(1) [OF out(2)])
qed

lemma fold_process_agent:
  "agent t = agent u \<Longrightarrow> agent (fold (process cfg) cs t) = agent (fold (process cfg) cs u)"
proof (induction cs arbitrary: t u)
  case Nil
  then show ?case by simp
next
  case (Cons c cs)
  from Cons.prems have "agent (process cfg c t) = agent (process cfg c u)"
    by (rule process_agent)
  then have "agent (fold (process cfg) cs (process cfg c t)) =
      agent (fold (process cfg) cs (process cfg c u))"
    by (rule Cons.IH)
  then show ?case by simp
qed

lemma bracket_erased:
  assumes "balanced w 0"
  shows "agent (fold (process cfg) (pre @ CHR ''['' # w @ CHR '']'' # post) t) =
         agent (fold (process cfg) (pre @ post) t)"
proof -
  have "fold (process cfg) (pre @ CHR ''['' # w @ CHR '']'' # post) t =
      fold (process cfg) post
        (fold (process cfg) (CHR ''['' # w @ [CHR '']'']) (fold (process cfg) pre t))"
    by simp
  moreover have "agent (fold (process cfg) post
        (fold (process cfg) (CHR ''['' # w @ [CHR '']'']) (fold (process cfg) pre t))) =
      agent (fold (process cfg) post (fold (process cfg) pre t))"
    by (rule fold_process_agent) (rule bracket_roundtrip [OF assms])
  ultimately show ?thesis by simp
qed

lemma skip_group_split:
  "skip_group cs n = Some rest \<Longrightarrow> \<exists>w. cs = w @ CHR '']'' # rest \<and> balanced w n"
proof (induction cs arbitrary: n)
  case Nil
  then show ?case by simp
next
  case (Cons c cs)
  show ?case
  proof (cases "c = CHR ''[''")
    case True
    with Cons.prems have "skip_group cs (Suc n) = Some rest"
      by simp
    then obtain w where "cs = w @ CHR '']'' # rest" "balanced w (Suc n)"
      using Cons.IH by blast
    with True have "c # cs = (c # w) @ CHR '']'' # rest \<and> balanced (c # w) n"
      by simp
    then show ?thesis ..
  next
    case no_push: False
    show ?thesis
    proof (cases "c = CHR '']''")
      case True
      show ?thesis
      proof (cases n)
        case 0
        with Cons.prems True have "c # cs = [] @ CHR '']'' # rest \<and> balanced [] n"
          by simp
        then show ?thesis ..
      next
        case (Suc m)
        with Cons.prems True have "skip_group cs m = Some rest"
          by simp
        then obtain w where "cs = w @ CHR '']'' # rest" "balanced w m"
          using Cons.IH by blast
        with True Suc have "c # cs = (c # w) @ CHR '']'' # rest \<and> balanced (c # w) n"
          by simp
        then show ?thesis ..
      qed
    next
      case False
      with Cons.prems no_push have "skip_group cs n = Some rest"
        by simp
      then obtain w where "cs = w @ CHR '']'' # rest" "balanced w n"
        using Cons.IH by blast
      with False no_push have "c # cs = (c # w) @ CHR '']'' # rest \<and> balanced (c # w) n"
        by simp
      then show ?thesis ..
    qed
  qed
qed

lemma strip_brackets_agent:
  "agent (fold (process cfg) cs t) = agent (fold (process cfg) (strip_brackets cs) t)"
proof (induction cs arbitrary: t rule: strip_brackets.induct)
  case 1
  show ?case by simp
next
  case (2 c cs)
  show ?case
  proof (cases "c = CHR ''[''")
    case True
    show ?thesis
    proof (cases "skip_group cs 0")
      case None
      with True show ?thesis
        by (simp add: "2.IH")
    next
      case (Some rest)
      then obtain w where w: "cs = w @ CHR '']'' # rest" "balanced w 0"
        using skip_group_split by blast
      have "agent (fold (process cfg) ([] @ CHR ''['' # w @ CHR '']'' # rest) t) =
          agent (fold (process cfg) ([] @ rest) t)"
        using w(2) by (rule bracket_erased)
      also have "\<dots> = agent (fold (process cfg) (strip_brackets rest) t)"
        using True Some by (simp add: "2.IH")
      finally show ?thesis
        using True Some w(1) by simp
    qed
  next
    case False
    then show ?thesis
      by (simp add: "2.IH")
  qed
qed

text \<open>
  Claim C4. A \<open>push\<close>, then any sequence of moves, rotations, brush-width settings and
  balanced push/pop pairs, then a \<open>pop\<close>, gives back the turtle as it was at the push:
  position, forward, left, up, brush width and the stack. For commands: a sentence and
  the sentence without one of its bracketed subsequences (an opening bracket, a balanced
  sentence and the closing bracket) leave the agent, its current state and its stack, in
  the same final state; and so do a sentence and the sentence with every bracketed
  subsequence replaced by nothing. The outputs are not part of the agent: they lose what
  the brackets enclosed.
\<close>

theorem push_pop_round_trip:
  "(balanced_calls cs 0 \<longrightarrow> fold call (Push # cs @ [Pop]) t = t)
   \<and> (balanced w 0 \<longrightarrow>
        agent (fold (process cfg) (pre @ CHR ''['' # w @ CHR '']'' # post) u) =
        agent (fold (process cfg) (pre @ post) u))
   \<and> agent (fold (process cfg) sentence u) =
       agent (fold (process cfg) (strip_brackets sentence) u)"
  by (intro conjI impI)
    (rule push_calls_pop bracket_erased strip_brackets_agent, assumption?)+

theorem push_pop_round_trip_witness:
  "fold call (Push # [Move 1, Push, Rotate (Vec3 0 1 0) 1, Pop, Set_brush_width 2] @ [Pop])
      (newLTurtle [] []) = newLTurtle [] []
   \<and> agent (fold (process (branch_scenario_config 0)) (''M'' @ CHR ''['' # ''+M'' @ CHR '']'' # ''M'')
        (newLTurtle [] [])) =
       agent (fold (process (branch_scenario_config 0)) (''M'' @ ''M'') (newLTurtle [] []))
   \<and> agent (fold (process (branch_scenario_config 0)) ''M[+M]M'' (newLTurtle [] [])) =
       agent (fold (process (branch_scenario_config 0)) ''MM'' (newLTurtle [] []))"
proof -
  have b1: "balanced_calls [Move 1, Push, Rotate (Vec3 0 1 0) 1, Pop, Set_brush_width 2] 0"
    by simp
  have b2: "balanced ''+M'' 0"
    by simp
  have s: "strip_brackets ''M[+M]M'' = ''MM''"
    by simp
  note c = push_pop_round_trip [of "[Move 1, Push, Rotate (Vec3 0 1 0) 1, Pop, Set_brush_width 2]"
      "newLTurtle [] []" "''+M''" "branch_scenario_config 0" "''M''" "''M''" "newLTurtle [] []"
      "''M[+M]M''"]
  show ?thesis
    by (intro conjI)
      (rule c [THEN conjunct1, THEN mp, OF b1]
        c [THEN conjunct2, THEN conjunct1, THEN mp, OF b2]
        c [THEN conjunct2, THEN conjunct2, unfolded s])+
qed

section \<open>The orientation frame\<close>

lemma dot_cross_first: "dot a (cross a b) = 0"
  by (cases a; cases b) (simp add: algebra_simps)

lemma dot_cross_second: "dot b (cross a b) = 0"
  by (cases a; cases b) (simp add: algebra_simps)

lemma dot_cross_cross: "dot (cross a b) (cross a b) = dot a a * dot b b - dot a b * dot a b"
  by (cases a; cases b) (simp add: algebra_simps)

lemma cross_cross_first:
  "dot a a = 1 \<Longrightarrow> dot a b = 0 \<Longrightarrow> cross (cross a b) a = b"
proof (cases a; cases b)
  fix a1 a2 a3 b1 b2 b3
  assume ab: "a = Vec3 a1 a2 a3" "b = Vec3 b1 b2 b3"
  assume "dot a a = 1" "dot a b = 0"
  then have n: "a1 * a1 + a2 * a2 + a3 * a3 = 1" and o: "a1 * b1 + a2 * b2 + a3 * b3 = 0"
    by (simp_all add: ab)
  have "(a3 * b1 - b3 * a1) * a3 - a2 * (a1 * b2 - b1 * a2) =
      b1 * (a1 * a1 + a2 * a2 + a3 * a3) - a1 * (a1 * b1 + a2 * b2 + a3 * b3)"
    "(a1 * b2 - b1 * a2) * a1 - a3 * (a2 * b3 - b2 * a3) =
      b2 * (a1 * a1 + a2 * a2 + a3 * a3) - a2 * (a1 * b1 + a2 * b2 + a3 * b3)"
    "(a2 * b3 - b2 * a3) * a2 - a1 * (a3 * b1 - b3 * a1) =
      b3 * (a1 * a1 + a2 * a2 + a3 * a3) - a3 * (a1 * b1 + a2 * b2 + a3 * b3)"
    by (simp_all add: algebra_simps)
  then show "cross (cross a b) a = b"
    by (simp add: ab n o)
qed

lemma angleAxis_unit:
  assumes "dot v v = 1"
  shows "qw (angleAxis angle v) * qw (angleAxis angle v)
       + qx (angleAxis angle v) * qx (angleAxis angle v)
       + qy (angleAxis angle v) * qy (angleAxis angle v)
       + qz (angleAxis angle v) * qz (angleAxis angle v) = 1"
proof (cases v)
  case (Vec3 a1 a2 a3)
  with assms have n: "a1 * a1 + a2 * a2 + a3 * a3 = 1"
    by simp
  have "cos (angle * 0.5) * cos (angle * 0.5)
      + (a1 * a1 + a2 * a2 + a3 * a3) * (sin (angle * 0.5) * sin (angle * 0.5)) = 1"
    unfolding n using sin_cos_squared_add3 [of "angle * 0.5"] by (simp add: add.commute)
  then show ?thesis
    by (simp add: Vec3 angleAxis_def Let_def algebra_simps)
qed

lemma toMat3_dot:
  assumes "qw q * qw q + qx q * qx q + qy q * qy q + qz q * qz q = 1"
  shows "dot (mat_vec (toMat3 q) a) (mat_vec (toMat3 q) b) = dot a b"
proof (cases q; cases a; cases b)
  fix w x y z a1 a2 a3 b1 b2 b3
  assume q: "q = Quat w x y z" and a: "a = Vec3 a1 a2 a3" and b: "b = Vec3 b1 b2 b3"
  from assms have n: "w * w + x * x + y * y + z * z = 1"
    by (simp add: q)
  show "dot (mat_vec (toMat3 q) a) (mat_vec (toMat3 q) b) = dot a b"
    unfolding q a b toMat3_def Let_def by simp (use n in algebra)
qed

lemma vlength_unit: "vlength v = 1 \<longleftrightarrow> dot v v = 1"
  by (simp add: vlength_def)

lemma normalize_dot_unit: "dot v v = 1 \<Longrightarrow> normalize v = v"
  by (cases v) (simp add: normalize_def inversesqrt_def)

lemma rotate_frame:
  assumes axis: "dot unit_axis unit_axis = 1"
    and f: "dot (forward (currentState t)) (forward (currentState t)) = 1"
    and l: "dot (left (currentState t)) (left (currentState t)) = 1"
    and fl: "dot (forward (currentState t)) (left (currentState t)) = 0"
  shows "currentState (rotate unit_axis angle_radians t) =
    (currentState t)
      \<lparr>forward := mat_vec (toMat3 (angleAxis angle_radians unit_axis)) (forward (currentState t)),
       left := mat_vec (toMat3 (angleAxis angle_radians unit_axis)) (left (currentState t)),
       up := cross
         (mat_vec (toMat3 (angleAxis angle_radians unit_axis)) (forward (currentState t)))
         (mat_vec (toMat3 (angleAxis angle_radians unit_axis)) (left (currentState t)))\<rparr>"
proof -
  let ?R = "toMat3 (angleAxis angle_radians unit_axis)"
  let ?F = "mat_vec ?R (forward (currentState t))"
  let ?L = "mat_vec ?R (left (currentState t))"
  note q = angleAxis_unit [OF axis, of angle_radians]
  have F: "dot ?F ?F = 1" and L: "dot ?L ?L = 1" and FL: "dot ?F ?L = 0"
    by (simp_all add: toMat3_dot [OF q] f l fl)
  have U: "dot (cross ?F ?L) (cross ?F ?L) = 1"
    by (simp add: dot_cross_cross F L FL)
  have L': "cross (cross ?F ?L) ?F = ?L"
    using F FL by (rule cross_cross_first)
  show ?thesis
    by (simp add: rotate_def Let_def L' normalize_dot_unit F L U)
qed

lemma rotate_orthonormal:
  assumes "vlength unit_axis = 1" and "orthonormal_frame (currentState t)"
  shows "orthonormal_frame (currentState (rotate unit_axis angle_radians t))"
proof -
  let ?R = "toMat3 (angleAxis angle_radians unit_axis)"
  let ?F = "mat_vec ?R (forward (currentState t))"
  let ?L = "mat_vec ?R (left (currentState t))"
  from assms have axis: "dot unit_axis unit_axis = 1"
    and f: "dot (forward (currentState t)) (forward (currentState t)) = 1"
    and l: "dot (left (currentState t)) (left (currentState t)) = 1"
    and fl: "dot (forward (currentState t)) (left (currentState t)) = 0"
    by (simp_all add: orthonormal_frame_def vlength_unit)
  note q = angleAxis_unit [OF axis, of angle_radians]
  have F: "dot ?F ?F = 1" and L: "dot ?L ?L = 1" and FL: "dot ?F ?L = 0"
    by (simp_all add: toMat3_dot [OF q] f l fl)
  have U: "dot (cross ?F ?L) (cross ?F ?L) = 1"
    by (simp add: dot_cross_cross F L FL)
  show ?thesis
    unfolding rotate_frame [OF axis f l fl]
    by (simp add: orthonormal_frame_def vlength_unit F L FL U dot_cross_first dot_cross_second)
qed

lemma initial_orthonormal: "orthonormal_frame (currentState (newLTurtle bs ls))"
  by (simp add: orthonormal_frame_def vlength_def newLTurtle_def initialState_def)

lemma rotations_orthonormal:
  "list_all unit_rotation rs \<Longrightarrow> orthonormal_frame (currentState t) \<Longrightarrow>
     orthonormal_frame (currentState (fold call rs t))"
proof (induction rs arbitrary: t)
  case Nil
  then show ?case by simp
next
  case (Cons r rs)
  from Cons.prems(1) obtain unit_axis angle_radians
    where r: "r = Rotate unit_axis angle_radians" and axis: "vlength unit_axis = 1"
    by (cases r) simp_all
  from axis Cons.prems(2)
  have "orthonormal_frame (currentState (rotate unit_axis angle_radians t))"
    by (rule rotate_orthonormal)
  with Cons.prems(1) have "orthonormal_frame (currentState (fold call rs (call r t)))"
    by (intro Cons.IH) (simp_all add: r)
  then show ?case by simp
qed

lemma normalize_left_unit:
  "orthonormal_frame s \<Longrightarrow> vlength (normalize (left s)) = 1"
  by (simp add: orthonormal_frame_def vlength_unit normalize_dot_unit)

lemma process_rotation_orthonormal:
  assumes "orthonormal_frame (currentState u)" and "c \<in> set ''+-&^''"
  shows "orthonormal_frame (currentState (process cfg c u))"
proof -
  have y: "vlength (Vec3 0 1 0) = 1"
    by (simp add: vlength_def)
  note l = normalize_left_unit [OF assms(1)]
  from assms(2) consider "c = CHR ''+''" | "c = CHR ''-''" | "c = CHR ''&''" | "c = CHR ''^''"
    by auto
  then show ?thesis
  proof cases
    case 1
    then show ?thesis
      by (simp add: process_def Let_def rotate_orthonormal [OF y assms(1)])
  next
    case 2
    then show ?thesis
      by (simp add: process_def Let_def rotate_orthonormal [OF y assms(1)])
  next
    case 3
    then show ?thesis
      by (simp add: process_def Let_def rotate_orthonormal [OF l assms(1)])
  next
    case 4
    then show ?thesis
      by (simp add: process_def Let_def rotate_orthonormal [OF l assms(1)])
  qed
qed

text \<open>
  Claim C3. A call of \<open>rotate\<close> with an axis of length 1 takes an orthonormal frame to an
  orthonormal frame whose up vector is the cross product of forward and left. The turtle
  as constructed has such a frame, so it has one after every sequence of calls of \<open>rotate\<close>
  with axes of length 1, and the four rotation commands \<open>+ - & ^\<close> keep it as well. The
  scalars being reals, the lengths are exactly 1 and the dot products exactly 0, which is
  within every tolerance.
\<close>

theorem rotate_keeps_orthonormal:
  "(vlength unit_axis = 1 \<and> orthonormal_frame (currentState t) \<longrightarrow>
      orthonormal_frame (currentState (rotate unit_axis angle_radians t)))
   \<and> orthonormal_frame (currentState (newLTurtle bs ls))
   \<and> (list_all unit_rotation rs \<longrightarrow>
        orthonormal_frame (currentState (fold call rs (newLTurtle bs ls))))
   \<and> (orthonormal_frame (currentState u) \<and> c \<in> set ''+-&^'' \<longrightarrow>
        orthonormal_frame (currentState (process cfg c u)))"
  by (intro conjI impI)
    (simp_all add: rotate_orthonormal initial_orthonormal rotations_orthonormal
      process_rotation_orthonormal)

theorem rotate_keeps_orthonormal_witness:
  "vlength (Vec3 0 1 0) = 1
   \<and> orthonormal_frame (currentState (rotate (Vec3 0 1 0) (pi / 2) (newLTurtle [] [])))
   \<and> orthonormal_frame (currentState
        (fold call [Rotate (Vec3 0 1 0) 1, Rotate (Vec3 0 0 1) (- 2), Rotate (Vec3 (3 / 5) 0 (4 / 5)) 7]
           (newLTurtle [] [])))
   \<and> orthonormal_frame (currentState
        (process (branch_scenario_config 1) (CHR ''&'') (newLTurtle [] [])))"
proof -
  have y: "vlength (Vec3 0 1 0) = 1"
    by (simp add: vlength_def)
  have rs: "list_all unit_rotation
      [Rotate (Vec3 0 1 0) 1, Rotate (Vec3 0 0 1) (- 2), Rotate (Vec3 (3 / 5) 0 (4 / 5)) 7]"
    by (simp add: vlength_def)
  have amp: "CHR ''&'' \<in> set ''+-&^''"
    by simp
  note w = rotate_keeps_orthonormal [of "Vec3 0 1 0" "newLTurtle [] []" "pi / 2" "[]" "[]"
      "[Rotate (Vec3 0 1 0) 1, Rotate (Vec3 0 0 1) (- 2), Rotate (Vec3 (3 / 5) 0 (4 / 5)) 7]"
      "newLTurtle [] []" "CHR ''&''" "branch_scenario_config 1"]
  note init = w [THEN conjunct2, THEN conjunct1]
  show ?thesis
    by (intro conjI)
      (rule y
        w [THEN conjunct1, THEN mp, OF conjI [OF y init]]
        w [THEN conjunct2, THEN conjunct2, THEN conjunct1, THEN mp, OF rs]
        w [THEN conjunct2, THEN conjunct2, THEN conjunct2, THEN mp, OF conjI [OF init amp]])+
qed

section \<open>Branches along the path\<close>








end
